theory Spec2Isabelle
  imports Complex_Main "HOL-Library.Word"
begin

unbundle bit_operations_syntax

section \<open>AC client/server example: data model\<close>

text \<open>
  The model follows \<open>src/TWIST/Microgrid/AC_client_server/main.cpp\<close>. The file is built
  for one of two roles, selected by the preprocessor (\<open>SERVER\<close> or \<open>CLIENT\<close>); the role
  is a parameter of the functions below. The global variables of the file are the fields
  of one record. Values of type \<open>float32_t\<close> are modelled by the real numbers they denote:
  rounding, infinities and NaN are outside the model. \<open>uint8_t\<close> and \<open>uint32_t\<close> are
  machine words. Console printing (\<open>printk\<close>) and \<open>loop_application_task\<close>, which only
  prints and dumps the records, are left out.
\<close>

datatype role = SERVER | CLIENT

datatype serial_interface_menu_mode = IDLEMODE | POWERMODE

text \<open>The five channels read with \<open>data.getLatest\<close>.\<close>

datatype channel = I1_LOW | V1_LOW | V2_LOW | I2_LOW | V_HIGH

record consigne_struct =
  Vref_fromSERVER :: real
  Iref_fromSERVER :: real
  w0_fromSERVER :: real
  id_and_status :: "8 word"

text \<open>\<open>record_t\<close>; the fields carry the prefix \<open>r_\<close> to keep them apart from the globals
  of the same name.\<close>

record record_t =
  r_I_low :: real
  r_V_low :: real
  r_Vhigh_value :: real
  r_Iref :: real
  r_duty_cycle :: real
  r_Vgrid :: real
  r_angle :: real

text \<open>Calls into the hardware API (\<open>twist\<close>, \<open>spin.led\<close>, \<open>communication.rs485\<close>), in the
  order they are issued. \<open>StartTransmission\<close> carries the content of the transmit buffer
  at the time of the call.\<close>

datatype hw_call =
    StopAll
  | StartAll
  | LedTurnOn
  | LedTurnOff
  | SetAllDutyCycle real
  | StartTransmission consigne_struct

text \<open>An access to \<open>record_array\<close> outside its declared bound.\<close>

datatype fault = OutOfBounds

definition Udc :: real where
  "Udc = 40"

definition f0 :: real where
  "f0 = 50"

definition control_task_period :: real where
  "control_task_period = 100"

definition RECORD_SIZE :: nat where
  "RECORD_SIZE = 2048"

text \<open>The globals. \<open>'p\<close> is the internal state of a \<open>Pr\<close> regulator object.\<close>

record 'p state =
  pwm_enable :: bool
  V1_low_value :: real
  V2_low_value :: real
  I1_low_value :: real
  I2_low_value :: real
  V_high :: real
  Iref :: real
  Vgrid :: real
  meas_data :: real
  duty_cycle :: real
  w0 :: real
  Ts :: real
  angle :: real
  Vgrid_amplitude :: real
  k_gain :: real
  pr_voltage :: 'p
  pr_current :: 'p
  pr_value :: real
  tx_consigne :: consigne_struct
  rx_consigne :: consigne_struct
  status :: "8 word"
  counter_time :: "32 word"
  is_downloading :: bool
  record_array :: "record_t list"
  counter :: "32 word"
  mode :: serial_interface_menu_mode
  hw :: "hw_call list"

definition zero_consigne :: consigne_struct where
  "zero_consigne =
     \<lparr>Vref_fromSERVER = 0, Iref_fromSERVER = 0, w0_fromSERVER = 0, id_and_status = 0\<rparr>"

definition zero_record :: record_t where
  "zero_record =
     \<lparr>r_I_low = 0, r_V_low = 0, r_Vhigh_value = 0, r_Iref = 0, r_duty_cycle = 0,
      r_Vgrid = 0, r_angle = 0\<rparr>"

text \<open>The globals as they are at start-up: initialised where the source gives an
  initialiser, zero otherwise. \<open>p0\<close> is the regulator state after \<open>init\<close>.\<close>

definition init_state :: "'p \<Rightarrow> 'p state" where
  "init_state p0 =
     \<lparr>pwm_enable = False,
      V1_low_value = 0, V2_low_value = 0, I1_low_value = 0, I2_low_value = 0, V_high = 0,
      Iref = 0, Vgrid = 0, meas_data = 0, duty_cycle = 0,
      w0 = 2 * pi * f0, Ts = control_task_period * (1 / 1000000),
      angle = 0, Vgrid_amplitude = 12, k_gain = 1,
      pr_voltage = p0, pr_current = p0, pr_value = 0,
      tx_consigne = zero_consigne, rx_consigne = zero_consigne,
      status = 0, counter_time = 0, is_downloading = False,
      record_array = replicate RECORD_SIZE zero_record, counter = 0,
      mode = IDLEMODE, hw = []\<rparr>"

section \<open>Library functions\<close>

text \<open>Modelled from the spec: \<open>ot_modulo_2pi\<close> of \<open>trigo.h\<close> is not among the sources.
  The spec says the phase accumulator is "wrapped into [0, 2\<pi>)".\<close>

definition ot_modulo_2pi :: "real \<Rightarrow> real" where
  "ot_modulo_2pi x = x - 2 * pi * of_int \<lfloor>x / (2 * pi)\<rfloor>"

text \<open>Modelled from the spec: \<open>ot_sin\<close> of \<open>trigo.h\<close> is not among the sources. The spec
  says "Vgrid = amplitude * sin(angle)".\<close>

definition ot_sin :: "real \<Rightarrow> real" where
  "ot_sin x = sin x"

text \<open>\<open>Pr::calculateWithReturn\<close> of \<open>pr.h\<close> is not among the sources either. It is a
  parameter of the control loop: a function from the regulator state, the reference and
  the measurement to the correction and the new regulator state.\<close>

type_synonym 'p pr_step = "'p \<Rightarrow> real \<Rightarrow> real \<Rightarrow> real \<times> 'p"

text \<open>The contract the spec gives for the regulator: its output is clamped to the limits
  it was configured with, here \<open>-Udc\<close> and \<open>Udc\<close>.\<close>

definition pr_saturates :: "'p pr_step \<Rightarrow> bool" where
  "pr_saturates calc = (\<forall>p r m. - Udc \<le> fst (calc p r m) \<and> fst (calc p r m) \<le> Udc)"

section \<open>Reception callback\<close>

text \<open>\<open>reception_function\<close>. Its body is compiled for the client only. The status byte is
  promoted to \<open>int\<close> before the shift and the mask.\<close>

definition reception_function :: "role \<Rightarrow> 'p state \<Rightarrow> 'p state" where
  "reception_function r s =
     (case r of
        SERVER \<Rightarrow> s
      | CLIENT \<Rightarrow>
          if drop_bit 6 (id_and_status (rx_consigne s)) = 1 then
            let s1 = s\<lparr>status := id_and_status (rx_consigne s)\<rparr>;
                s2 = (if id_and_status (rx_consigne s) AND 2 = 1
                      then s1\<lparr>counter := 0\<rparr> else s1)
            in s2\<lparr>Iref := Iref_fromSERVER (rx_consigne s),
                  Vgrid := Vref_fromSERVER (rx_consigne s),
                  w0 := w0_fromSERVER (rx_consigne s)\<rparr>
          else s)"

text \<open>The RS485 driver, as configured in \<open>setup_routine\<close>: a received frame is stored in
  \<open>buffer_rx\<close>, which is \<open>rx_consigne\<close>, and the callback is invoked.\<close>

definition rs485_receive :: "role \<Rightarrow> consigne_struct \<Rightarrow> 'p state \<Rightarrow> 'p state" where
  "rs485_receive r f s = reception_function r (s\<lparr>rx_consigne := f\<rparr>)"

section \<open>Console commands\<close>

text \<open>One iteration of the loop of \<open>loop_communication_task\<close>, for the character read.\<close>

definition loop_communication_task :: "role \<Rightarrow> char \<Rightarrow> 'p state \<Rightarrow> 'p state" where
  "loop_communication_task r c s =
     (if c = CHR ''h'' then s
      else if c = CHR ''i'' then s\<lparr>mode := IDLEMODE, counter := 0\<rparr>
      else if c = CHR ''p'' then
        (if is_downloading s = False then s\<lparr>mode := POWERMODE\<rparr> else s)
      else if r = SERVER \<and> c = CHR ''l'' then s\<lparr>k_gain := k_gain s + 1 / 10\<rparr>
      else if r = SERVER \<and> c = CHR ''m'' then s\<lparr>k_gain := k_gain s - 1 / 10\<rparr>
      else if c = CHR ''r'' then s\<lparr>is_downloading := True\<rparr>
      else s)"

section \<open>Critical task\<close>

text \<open>The acquisition at the head of \<open>loop_critical_task\<close>. \<open>latest\<close> gives what
  \<open>data.getLatest\<close> returns for each channel in this cycle.\<close>

definition acquire :: "(channel \<Rightarrow> real) \<Rightarrow> 'p state \<Rightarrow> 'p state" where
  "acquire latest s =
     (let s = s\<lparr>meas_data := latest I1_LOW\<rparr>;
          s = (if meas_data s < 10000 \<and> meas_data s > - 10000
               then s\<lparr>I1_low_value := meas_data s\<rparr> else s);
          s = s\<lparr>meas_data := latest V1_LOW\<rparr>;
          s = (if meas_data s < 10000 \<and> meas_data s > - 10000
               then s\<lparr>V1_low_value := meas_data s\<rparr> else s);
          s = s\<lparr>meas_data := latest V2_LOW\<rparr>;
          s = (if meas_data s < 10000 \<and> meas_data s > - 10000
               then s\<lparr>V2_low_value := meas_data s\<rparr> else s);
          s = s\<lparr>meas_data := latest I2_LOW\<rparr>;
          s = (if meas_data s < 10000 \<and> meas_data s > - 10000
               then s\<lparr>I2_low_value := meas_data s\<rparr> else s);
          s = s\<lparr>meas_data := latest V_HIGH\<rparr>;
          s = (if meas_data s \<noteq> - 10000 then s\<lparr>V_high := meas_data s\<rparr> else s)
      in s)"

text \<open>The block guarded by \<open>counter_time % 4 == 0\<close>: the record is written at the cursor,
  then the cursor advances if it is below \<open>RECORD_SIZE - 1\<close>. \<open>record_array\<close> has
  \<open>RECORD_SIZE\<close> elements; a write at or beyond that index is a fault.\<close>

definition record_append :: "record_t \<Rightarrow> 'p state \<Rightarrow> fault + 'p state" where
  "record_append rec s =
     (if unat (counter s) < RECORD_SIZE then
        Inr (s\<lparr>record_array := (record_array s)[unat (counter s) := rec],
               counter := (if unat (counter s) < RECORD_SIZE - 1
                           then counter s + 1 else counter s)\<rparr>)
      else Inl OutOfBounds)"

definition record_every_4th :: "real \<Rightarrow> 'p state \<Rightarrow> fault + 'p state" where
  "record_every_4th v7 s =
     (if unat (counter_time s) mod 4 = 0 then
        record_append
          \<lparr>r_I_low = I1_low_value s, r_V_low = V1_low_value s, r_Vhigh_value = V_high s,
           r_Iref = Iref s, r_duty_cycle = duty_cycle s, r_Vgrid = Vgrid s,
           r_angle = v7\<rparr> s
      else Inr s)"

text \<open>The server branch of \<open>loop_critical_task\<close>, after the acquisition.\<close>

definition server_control :: "'p pr_step \<Rightarrow> 'p state \<Rightarrow> fault + 'p state" where
  "server_control calc s =
     (case mode s of
        IDLEMODE \<Rightarrow>
          (let s = (if pwm_enable s = True then
                      (let s = s\<lparr>hw := hw s @ [StopAll]\<rparr>;
                           s = s\<lparr>hw := hw s @ [LedTurnOff]\<rparr>;
                           s = s\<lparr>k_gain := 1\<rparr>;
                           s = s\<lparr>tx_consigne := (tx_consigne s)\<lparr>id_and_status := push_bit 6 1 + 0\<rparr>\<rparr>
                       in s\<lparr>hw := hw s @ [StartTransmission (tx_consigne s)]\<rparr>)
                    else s)
           in Inr (s\<lparr>pwm_enable := False\<rparr>))
      | POWERMODE \<Rightarrow>
          (let s = s\<lparr>angle := angle s + w0 s * Ts s\<rparr>;
               s = s\<lparr>angle := ot_modulo_2pi (angle s)\<rparr>;
               s = s\<lparr>Vgrid := Vgrid_amplitude s * ot_sin (angle s)\<rparr>;
               (c, p) = calc (pr_voltage s) (Vgrid s) (V1_low_value s - V2_low_value s);
               s = s\<lparr>pr_voltage := p, duty_cycle := 0.5 + c / (2 * Udc)\<rparr>;
               s = s\<lparr>hw := hw s @ [SetAllDutyCycle (duty_cycle s)]\<rparr>;
               s = (if counter s = 0
                    then s\<lparr>tx_consigne := (tx_consigne s)\<lparr>id_and_status := push_bit 6 1 + 2\<rparr>\<rparr>
                    else s\<lparr>tx_consigne := (tx_consigne s)\<lparr>id_and_status := push_bit 6 1 + 1\<rparr>\<rparr>);
               s = s\<lparr>Iref := k_gain s * I1_low_value s\<rparr>;
               s = s\<lparr>tx_consigne := (tx_consigne s)\<lparr>Vref_fromSERVER := Vgrid s\<rparr>\<rparr>;
               s = s\<lparr>tx_consigne := (tx_consigne s)\<lparr>Iref_fromSERVER := Iref s\<rparr>\<rparr>;
               s = s\<lparr>tx_consigne := (tx_consigne s)\<lparr>w0_fromSERVER := w0 s\<rparr>\<rparr>;
               s = s\<lparr>hw := hw s @ [StartTransmission (tx_consigne s)]\<rparr>
           in case record_every_4th (angle s) s of
                Inl e \<Rightarrow> Inl e
              | Inr s \<Rightarrow>
                  (let s = (if \<not> pwm_enable s
                            then s\<lparr>pwm_enable := True, hw := hw s @ [LedTurnOn, StartAll]\<rparr>
                            else s)
                   in Inr (s\<lparr>counter_time := counter_time s + 1\<rparr>))))"

text \<open>The client branch of \<open>loop_critical_task\<close>, after the acquisition.\<close>

definition client_control :: "'p pr_step \<Rightarrow> 'p state \<Rightarrow> fault + 'p state" where
  "client_control calc s =
     (if status s AND 3 = 1 \<or> status s AND 3 = 2 then
        (let s = s\<lparr>mode := POWERMODE\<rparr>;
             (c, p) = calc (pr_current s) (Iref s) (I1_low_value s);
             s = s\<lparr>pr_current := p, pr_value := c\<rparr>;
             s = s\<lparr>duty_cycle := (Vgrid s + pr_value s) / (2 * Udc) + 0.5\<rparr>;
             s = s\<lparr>hw := hw s @ [SetAllDutyCycle (duty_cycle s)]\<rparr>;
             s = (if \<not> pwm_enable s
                  then s\<lparr>pwm_enable := True, hw := hw s @ [LedTurnOn, StartAll]\<rparr>
                  else s)
         in case record_every_4th (pr_value s) s of
              Inl e \<Rightarrow> Inl e
            | Inr s \<Rightarrow> Inr (s\<lparr>counter_time := counter_time s + 1\<rparr>))
      else
        (let s = s\<lparr>mode := IDLEMODE\<rparr>;
             s = (if pwm_enable s = True
                  then s\<lparr>hw := hw s @ [StopAll, LedTurnOff], pwm_enable := False\<rparr>
                  else s)
         in Inr s))"

text \<open>\<open>loop_critical_task\<close>: one control period.\<close>

definition loop_critical_task ::
  "role \<Rightarrow> 'p pr_step \<Rightarrow> (channel \<Rightarrow> real) \<Rightarrow> 'p state \<Rightarrow> fault + 'p state" where
  "loop_critical_task r calc latest s =
     (case r of
        SERVER \<Rightarrow> server_control calc (acquire latest s)
      | CLIENT \<Rightarrow> client_control calc (acquire latest s))"

text \<open>Successive control periods, one acquisition per period; a fault stops the run.\<close>

fun run_critical ::
  "role \<Rightarrow> 'p pr_step \<Rightarrow> (channel \<Rightarrow> real) list \<Rightarrow> 'p state \<Rightarrow> fault + 'p state" where
  "run_critical r calc [] s = Inr s"
| "run_critical r calc (l # ls) s =
     (case loop_critical_task r calc l s of
        Inl e \<Rightarrow> Inl e
      | Inr s' \<Rightarrow> run_critical r calc ls s')"

text \<open>Successive appends of the given records.\<close>

fun append_all :: "record_t list \<Rightarrow> 'p state \<Rightarrow> fault + 'p state" where
  "append_all [] s = Inr s"
| "append_all (x # xs) s =
     (case record_append x s of
        Inl e \<Rightarrow> Inl e
      | Inr s' \<Rightarrow> append_all xs s')"

section \<open>Auxiliary notions for the statements\<close>

text \<open>The record cursor is inside \<open>record_array\<close>, and the array has its declared size.\<close>

definition wf :: "'p state \<Rightarrow> bool" where
  "wf s = (unat (counter s) < RECORD_SIZE \<and> length (record_array s) = RECORD_SIZE)"

text \<open>A frame with the given fields.\<close>

definition frame :: "real \<Rightarrow> real \<Rightarrow> real \<Rightarrow> 8 word \<Rightarrow> consigne_struct" where
  "frame v i w st =
     \<lparr>Vref_fromSERVER = v, Iref_fromSERVER = i, w0_fromSERVER = w, id_and_status = st\<rparr>"

text \<open>The gating condition of the critical task: the condition under which a control
  period takes the power branch. The server tests \<open>mode\<close>, the client the two low bits
  of the retained status.\<close>

definition runs :: "role \<Rightarrow> 'p state \<Rightarrow> bool" where
  "runs r s = (case r of SERVER \<Rightarrow> mode s = POWERMODE
                       | CLIENT \<Rightarrow> status s AND 3 = 1 \<or> status s AND 3 = 2)"

text \<open>The duty cycles handed to \<open>twist.setAllDutyCycle\<close>, in order.\<close>

fun duties :: "hw_call list \<Rightarrow> real list" where
  "duties [] = []"
| "duties (SetAllDutyCycle d # cs) = d # duties cs"
| "duties (c # cs) = duties cs"

definition duties_ok :: "hw_call list \<Rightarrow> bool" where
  "duties_ok cs = list_all (\<lambda>d. 0 \<le> d \<and> d \<le> 1) (duties cs)"

text \<open>Two regulators for concrete runs: one that always returns 0, one that always
  returns its upper limit.\<close>

definition zero_calc :: "unit pr_step" where
  "zero_calc p r m = (0, p)"

definition high_calc :: "unit pr_step" where
  "high_calc p r m = (Udc, p)"

section \<open>Basic facts\<close>

lemma and2_neq1: "(x::8 word) AND 2 \<noteq> 1"
proof
  assume "x AND 2 = 1"
  then have "bit (x AND 2) 0 = bit (1::8 word) 0" by simp
  then show False by (simp add: bit_and_iff)
qed

lemma marker_bits: "drop_bit 6 (x::8 word) = 1 \<longleftrightarrow> bit x 6 \<and> \<not> bit x 7"
proof
  assume "drop_bit 6 x = 1"
  then have "bit (drop_bit 6 x) 0 = bit (1::8 word) 0"
    and "bit (drop_bit 6 x) 1 = bit (1::8 word) 1"
    by simp_all
  then show "bit x 6 \<and> \<not> bit x 7" by (simp add: bit_drop_bit_eq)
next
  assume a: "bit x 6 \<and> \<not> bit x 7"
  show "drop_bit 6 x = 1"
  proof (rule bit_word_eqI)
    fix n assume "n < LENGTH(8)"
    then have "n \<in> {0,1,2,3,4,5,6,7}" by auto
    with a show "bit (drop_bit 6 x) n = bit (1::8 word) n"
      by (auto simp add: bit_drop_bit_eq bit_1_iff dest: bit_imp_le_length)
  qed
qed

text \<open>No received frame resets the record cursor: the guard of the reset in
  \<open>reception_function\<close> compares a value that is 0 or 2 with 1.\<close>

lemma reception_counter: "counter (reception_function r s) = counter s"
  by (cases r) (simp_all add: reception_function_def and2_neq1 Let_def)

lemma unat_suc_counter: "unat (c::32 word) < 2047 \<Longrightarrow> unat (c + 1) = Suc (unat c)"
  by (simp add: unat_word_ariths)

lemma acquire_counter [simp]: "counter (acquire l s) = counter s"
  by (simp add: acquire_def Let_def)

lemma acquire_record_array [simp]: "record_array (acquire l s) = record_array s"
  by (simp add: acquire_def Let_def)

lemma acquire_wf [simp]: "wf (acquire l s) = wf s"
  by (simp add: wf_def)

lemma record_every_4th_wf:
  "unat (counter s) < RECORD_SIZE \<Longrightarrow>
   record_every_4th v s =
     Inr (if unat (counter_time s) mod 4 = 0
          then s\<lparr>record_array := (record_array s)[unat (counter s) :=
                    \<lparr>r_I_low = I1_low_value s, r_V_low = V1_low_value s,
                     r_Vhigh_value = V_high s, r_Iref = Iref s,
                     r_duty_cycle = duty_cycle s, r_Vgrid = Vgrid s, r_angle = v\<rparr>],
                 counter := (if unat (counter s) < RECORD_SIZE - 1
                             then counter s + 1 else counter s)\<rparr>
          else s)"
  by (simp add: record_every_4th_def record_append_def)

lemma acquire_other [simp]:
  "mode (acquire l s) = mode s"
  "status (acquire l s) = status s"
  "pwm_enable (acquire l s) = pwm_enable s"
  "hw (acquire l s) = hw s"
  "counter_time (acquire l s) = counter_time s"
  "angle (acquire l s) = angle s"
  "w0 (acquire l s) = w0 s"
  "Ts (acquire l s) = Ts s"
  "Vgrid_amplitude (acquire l s) = Vgrid_amplitude s"
  "pr_voltage (acquire l s) = pr_voltage s"
  "pr_current (acquire l s) = pr_current s"
  "Iref (acquire l s) = Iref s"
  "Vgrid (acquire l s) = Vgrid s"
  "k_gain (acquire l s) = k_gain s"
  "tx_consigne (acquire l s) = tx_consigne s"
  by (simp_all add: acquire_def Let_def)

lemma duties_append [simp]: "duties (xs @ ys) = duties xs @ duties ys"
  by (induction xs rule: duties.induct) simp_all

lemma wf_init [simp]: "wf (init_state p0)"
  by (simp add: wf_def init_state_def RECORD_SIZE_def)

text \<open>A control period never changes the held measurements after the acquisition.\<close>

lemma critical_measures:
  assumes "wf s"
  shows "\<exists>s'. loop_critical_task r calc l s = Inr s' \<and> wf s' \<and>
     I1_low_value s' = I1_low_value (acquire l s) \<and>
     V1_low_value s' = V1_low_value (acquire l s) \<and>
     V2_low_value s' = V2_low_value (acquire l s) \<and>
     I2_low_value s' = I2_low_value (acquire l s) \<and>
     V_high s' = V_high (acquire l s)"
proof (cases r)
  case SERVER
  show ?thesis
  proof (cases "mode s")
    case IDLEMODE
    with SERVER assms show ?thesis
      by (simp add: loop_critical_task_def server_control_def Let_def wf_def)
  next
    case POWERMODE
    with SERVER assms show ?thesis
      apply (simp add: loop_critical_task_def server_control_def Let_def split: prod.splits)
      apply (simp add: record_every_4th_wf wf_def)
      apply (simp add: wf_def unat_suc_counter RECORD_SIZE_def)
      done
  qed
next
  case CLIENT
  with assms show ?thesis
    apply (simp add: loop_critical_task_def client_control_def Let_def split: prod.splits)
    apply (simp add: record_every_4th_wf wf_def)
    apply (simp add: wf_def unat_suc_counter RECORD_SIZE_def)
    done
qed

text \<open>What one control period does to the PWM flag, the mode and the start and stop
  calls.\<close>

lemma critical_pwm:
  assumes "wf s"
  shows "\<exists>s'. loop_critical_task r calc l s = Inr s' \<and> wf s' \<and>
          pwm_enable s' = runs r s \<and> runs r s' = runs r s \<and>
          mode s' = (if runs r s then POWERMODE else IDLEMODE) \<and>
          count_list (hw s') StartAll =
            count_list (hw s) StartAll + (if runs r s \<and> \<not> pwm_enable s then 1 else 0) \<and>
          count_list (hw s') StopAll =
            count_list (hw s) StopAll + (if \<not> runs r s \<and> pwm_enable s then 1 else 0)"
proof (cases r)
  case SERVER
  show ?thesis
  proof (cases "mode s")
    case IDLEMODE
    with SERVER assms show ?thesis
      by (simp add: loop_critical_task_def server_control_def Let_def wf_def runs_def)
  next
    case POWERMODE
    with SERVER assms show ?thesis
      apply (simp add: loop_critical_task_def server_control_def Let_def runs_def
          split: prod.splits)
      apply (simp add: record_every_4th_wf wf_def)
      apply (simp add: wf_def unat_suc_counter RECORD_SIZE_def)
      done
  qed
next
  case CLIENT
  with assms show ?thesis
    apply (simp add: loop_critical_task_def client_control_def Let_def runs_def
        split: prod.splits)
    apply (simp add: record_every_4th_wf wf_def)
    apply (simp add: wf_def unat_suc_counter RECORD_SIZE_def)
    done
qed

section \<open>Acceptance of a received frame\<close>

text \<open>
  C1 (amended). On the client, the reception callback accepts the received frame, and
  copies its status, current reference, voltage reference and angular frequency into
  \<open>status\<close>, \<open>Iref\<close>, \<open>Vgrid\<close> and \<open>w0\<close>, exactly when the status byte shifted right by
  six is 1, that is when bit 6 of the status byte is set and bit 7 is clear. In every
  other case the callback changes nothing at all.
\<close>

theorem reception_accepts_on_marker:
  "(bit (id_and_status (rx_consigne s)) 6 \<and> \<not> bit (id_and_status (rx_consigne s)) 7 \<longrightarrow>
      status (reception_function CLIENT s) = id_and_status (rx_consigne s) \<and>
      Iref (reception_function CLIENT s) = Iref_fromSERVER (rx_consigne s) \<and>
      Vgrid (reception_function CLIENT s) = Vref_fromSERVER (rx_consigne s) \<and>
      w0 (reception_function CLIENT s) = w0_fromSERVER (rx_consigne s)) \<and>
   (\<not> (bit (id_and_status (rx_consigne s)) 6 \<and> \<not> bit (id_and_status (rx_consigne s)) 7) \<longrightarrow>
      reception_function CLIENT s = s)"
  by (simp add: reception_function_def Let_def and2_neq1 marker_bits)

text \<open>The theorem at a frame with status \<open>0x41\<close>, which is accepted, and at a frame with
  status \<open>0x80\<close>, which is not.\<close>

theorem reception_accepts_on_marker_witness:
  "bit (0x41 :: 8 word) 6 \<and> \<not> bit (0x41 :: 8 word) 7 \<and>
   status (reception_function CLIENT ((init_state ())\<lparr>rx_consigne := frame 5 3 7 0x41\<rparr>)) = 0x41 \<and>
   Iref (reception_function CLIENT ((init_state ())\<lparr>rx_consigne := frame 5 3 7 0x41\<rparr>)) = 3 \<and>
   Vgrid (reception_function CLIENT ((init_state ())\<lparr>rx_consigne := frame 5 3 7 0x41\<rparr>)) = 5 \<and>
   w0 (reception_function CLIENT ((init_state ())\<lparr>rx_consigne := frame 5 3 7 0x41\<rparr>)) = 7 \<and>
   \<not> (bit (0x80 :: 8 word) 6 \<and> \<not> bit (0x80 :: 8 word) 7) \<and>
   reception_function CLIENT ((init_state ())\<lparr>rx_consigne := frame 5 3 7 0x80\<rparr>)
     = (init_state ())\<lparr>rx_consigne := frame 5 3 7 0x80\<rparr>"
  using reception_accepts_on_marker [of "(init_state ())\<lparr>rx_consigne := frame 5 3 7 0x41\<rparr>"]
    reception_accepts_on_marker [of "(init_state ())\<lparr>rx_consigne := frame 5 3 7 0x80\<rparr>"]
  by (simp add: frame_def)

text \<open>The claim as the spec states it takes the top bit of the status byte as the
  valid-frame bit. A frame whose status has the top bit set (\<open>0x80\<close>) is ignored: the
  retained status and current reference keep their start-up value 0. A frame whose
  status has the top bit clear (\<open>0x41\<close>) is accepted.\<close>

theorem reception_top_bit_counterexample:
  "bit (0x80 :: 8 word) 7 \<and>
   Iref (rs485_receive CLIENT (frame 5 3 7 0x80) (init_state ())) = 0 \<and>
   status (rs485_receive CLIENT (frame 5 3 7 0x80) (init_state ())) = 0 \<and>
   \<not> bit (0x41 :: 8 word) 7 \<and>
   Iref (rs485_receive CLIENT (frame 5 3 7 0x41) (init_state ())) = 3 \<and>
   status (rs485_receive CLIENT (frame 5 3 7 0x41) (init_state ())) = 0x41"
  by (simp add: rs485_receive_def reception_function_def frame_def init_state_def Let_def
        and2_neq1)

section \<open>The reset code\<close>

text \<open>
  C2. The server sends the status \<open>(1 << 6) + 2\<close> when its record cursor is zero. A client
  whose cursor is 5 receives that frame: the frame is accepted and the next control
  period enters power mode, but the cursor is not reset. The callback leaves it at 5,
  and the control period, which appends a record, moves it to 6. The test
  \<open>(id_and_status & 2) == 1\<close> that guards the reset is false for every status byte.
\<close>

theorem client_reset_code_keeps_cursor:
  "counter (rs485_receive CLIENT (frame 0 0 0 (push_bit 6 1 + 2))
              ((init_state ())\<lparr>counter := 5\<rparr>)) = 5 \<and>
   status (rs485_receive CLIENT (frame 0 0 0 (push_bit 6 1 + 2))
              ((init_state ())\<lparr>counter := 5\<rparr>)) = 0x42 \<and>
   (case loop_critical_task CLIENT zero_calc (\<lambda>c. 0)
           (rs485_receive CLIENT (frame 0 0 0 (push_bit 6 1 + 2))
              ((init_state ())\<lparr>counter := 5\<rparr>)) of
      Inl e \<Rightarrow> False
    | Inr s' \<Rightarrow> mode s' = POWERMODE \<and> counter s' = 6)"
  by (simp add: rs485_receive_def reception_function_def frame_def init_state_def Let_def
        and2_neq1 loop_critical_task_def acquire_def client_control_def zero_calc_def
        record_every_4th_wf RECORD_SIZE_def)

section \<open>Measurement validity window\<close>

text \<open>
  C3 (amended). In every control period, for each of the four low-side channels (two
  voltages, two currents) a sample outside the open interval (-10000, 10000) leaves the
  held value of the channel unchanged, and a sample inside replaces it. For the
  high-side voltage only a sample equal to -10000 leaves the held value unchanged; any
  other sample replaces it. On each of the five channels a sample of 20000 followed by
  a sample of 5 leaves the held value at 5.
\<close>

theorem measurement_window:
  assumes "wf s"
  shows "(\<exists>s'. loop_critical_task r calc l s = Inr s' \<and>
      (\<not> (- 10000 < l I1_LOW \<and> l I1_LOW < 10000) \<longrightarrow> I1_low_value s' = I1_low_value s) \<and>
      (\<not> (- 10000 < l V1_LOW \<and> l V1_LOW < 10000) \<longrightarrow> V1_low_value s' = V1_low_value s) \<and>
      (\<not> (- 10000 < l V2_LOW \<and> l V2_LOW < 10000) \<longrightarrow> V2_low_value s' = V2_low_value s) \<and>
      (\<not> (- 10000 < l I2_LOW \<and> l I2_LOW < 10000) \<longrightarrow> I2_low_value s' = I2_low_value s) \<and>
      (- 10000 < l I1_LOW \<and> l I1_LOW < 10000 \<longrightarrow> I1_low_value s' = l I1_LOW) \<and>
      (- 10000 < l V1_LOW \<and> l V1_LOW < 10000 \<longrightarrow> V1_low_value s' = l V1_LOW) \<and>
      (- 10000 < l V2_LOW \<and> l V2_LOW < 10000 \<longrightarrow> V2_low_value s' = l V2_LOW) \<and>
      (- 10000 < l I2_LOW \<and> l I2_LOW < 10000 \<longrightarrow> I2_low_value s' = l I2_LOW) \<and>
      (l V_HIGH = - 10000 \<longrightarrow> V_high s' = V_high s) \<and>
      (l V_HIGH \<noteq> - 10000 \<longrightarrow> V_high s' = l V_HIGH)) \<and>
    (\<exists>s1 s2. loop_critical_task r calc (\<lambda>c. 20000) s = Inr s1 \<and>
       loop_critical_task r calc (\<lambda>c. 5) s1 = Inr s2 \<and>
       I1_low_value s2 = 5 \<and> V1_low_value s2 = 5 \<and> V2_low_value s2 = 5 \<and>
       I2_low_value s2 = 5 \<and> V_high s2 = 5)"
proof -
  from critical_measures [OF assms, of r calc l] obtain s' where
    s': "loop_critical_task r calc l s = Inr s'"
      "I1_low_value s' = I1_low_value (acquire l s)"
      "V1_low_value s' = V1_low_value (acquire l s)"
      "V2_low_value s' = V2_low_value (acquire l s)"
      "I2_low_value s' = I2_low_value (acquire l s)"
      "V_high s' = V_high (acquire l s)"
    by blast
  have first: "\<exists>s'. loop_critical_task r calc l s = Inr s' \<and>
      (\<not> (- 10000 < l I1_LOW \<and> l I1_LOW < 10000) \<longrightarrow> I1_low_value s' = I1_low_value s) \<and>
      (\<not> (- 10000 < l V1_LOW \<and> l V1_LOW < 10000) \<longrightarrow> V1_low_value s' = V1_low_value s) \<and>
      (\<not> (- 10000 < l V2_LOW \<and> l V2_LOW < 10000) \<longrightarrow> V2_low_value s' = V2_low_value s) \<and>
      (\<not> (- 10000 < l I2_LOW \<and> l I2_LOW < 10000) \<longrightarrow> I2_low_value s' = I2_low_value s) \<and>
      (- 10000 < l I1_LOW \<and> l I1_LOW < 10000 \<longrightarrow> I1_low_value s' = l I1_LOW) \<and>
      (- 10000 < l V1_LOW \<and> l V1_LOW < 10000 \<longrightarrow> V1_low_value s' = l V1_LOW) \<and>
      (- 10000 < l V2_LOW \<and> l V2_LOW < 10000 \<longrightarrow> V2_low_value s' = l V2_LOW) \<and>
      (- 10000 < l I2_LOW \<and> l I2_LOW < 10000 \<longrightarrow> I2_low_value s' = l I2_LOW) \<and>
      (l V_HIGH = - 10000 \<longrightarrow> V_high s' = V_high s) \<and>
      (l V_HIGH \<noteq> - 10000 \<longrightarrow> V_high s' = l V_HIGH)"
    apply (rule exI [of _ s'])
    apply (simp only: s')
    apply (simp add: acquire_def Let_def)
    done
  from critical_measures [OF assms, of r calc "\<lambda>c. 20000"] obtain s1 where
    s1: "loop_critical_task r calc (\<lambda>c. 20000) s = Inr s1" "wf s1" by blast
  from critical_measures [OF s1(2), of r calc "\<lambda>c. 5"] obtain s2 where
    s2: "loop_critical_task r calc (\<lambda>c. 5) s1 = Inr s2"
      "I1_low_value s2 = I1_low_value (acquire (\<lambda>c. 5) s1)"
      "V1_low_value s2 = V1_low_value (acquire (\<lambda>c. 5) s1)"
      "V2_low_value s2 = V2_low_value (acquire (\<lambda>c. 5) s1)"
      "I2_low_value s2 = I2_low_value (acquire (\<lambda>c. 5) s1)"
      "V_high s2 = V_high (acquire (\<lambda>c. 5) s1)"
    by blast
  have "I1_low_value s2 = 5 \<and> V1_low_value s2 = 5 \<and> V2_low_value s2 = 5 \<and>
       I2_low_value s2 = 5 \<and> V_high s2 = 5"
    by (simp only: s2) (simp add: acquire_def Let_def)
  with s1(1) s2(1) have second: "\<exists>s1 s2. loop_critical_task r calc (\<lambda>c. 20000) s = Inr s1 \<and>
       loop_critical_task r calc (\<lambda>c. 5) s1 = Inr s2 \<and>
       I1_low_value s2 = 5 \<and> V1_low_value s2 = 5 \<and> V2_low_value s2 = 5 \<and>
       I2_low_value s2 = 5 \<and> V_high s2 = 5"
    by blast
  from first second show ?thesis by (rule conjI)
qed

text \<open>The theorem on the client at start-up, with a sample of 20000 on every channel:
  the four low-side values stay at 0 and the high-side voltage becomes 20000.\<close>

theorem measurement_window_witness:
  "wf (init_state ()) \<and>
   (\<exists>s'. loop_critical_task CLIENT zero_calc (\<lambda>c. 20000) (init_state ()) = Inr s' \<and>
      I1_low_value s' = 0 \<and> V1_low_value s' = 0 \<and> V2_low_value s' = 0 \<and>
      I2_low_value s' = 0 \<and> V_high s' = 20000)"
proof -
  have i: "I1_low_value (init_state ()) = 0" "V1_low_value (init_state ()) = 0"
    "V2_low_value (init_state ()) = 0" "I2_low_value (init_state ()) = 0"
    by (simp_all add: init_state_def)
  from measurement_window [OF wf_init, of CLIENT zero_calc "\<lambda>c. 20000" "()"]
  obtain s' where "loop_critical_task CLIENT zero_calc (\<lambda>c. 20000) (init_state ()) = Inr s'"
    and "I1_low_value s' = 0" and "V1_low_value s' = 0" and "V2_low_value s' = 0"
    and "I2_low_value s' = 0" and "V_high s' = 20000"
    by (auto simp add: i)
  then show ?thesis by (simp add: wf_init)
qed

text \<open>The claim as the spec states it, for the high-side voltage: a sample of 20000 is
  outside the interval, yet it replaces the held value 0.\<close>

theorem high_side_counterexample:
  "\<not> (- 10000 < (20000::real) \<and> (20000::real) < 10000) \<and>
   V_high (init_state ()) = 0 \<and>
   (case loop_critical_task CLIENT zero_calc (\<lambda>c. 20000) (init_state ()) of
      Inl e \<Rightarrow> False
    | Inr s' \<Rightarrow> V_high s' = 20000)"
  by (simp add: loop_critical_task_def acquire_def client_control_def Let_def init_state_def)

section \<open>PWM enable and disable\<close>

text \<open>
  C5. For both roles, take two successive control periods from a state in which the
  record cursor is inside the array. After each of them the flag \<open>pwm_enable\<close> is true
  exactly when the period took the power branch, and the mode is then \<open>POWERMODE\<close>,
  else \<open>IDLEMODE\<close>. The first period issues one \<open>startAll\<close> call if it takes the power
  branch with the flag false, one \<open>stopAll\<close> call if it takes the idle branch with the
  flag true, and no such call otherwise. The second period issues neither call.
\<close>

theorem pwm_switched_once_per_transition:
  assumes "wf s"
  shows "\<exists>s1 s2.
     loop_critical_task r calc l1 s = Inr s1 \<and> loop_critical_task r calc l2 s1 = Inr s2 \<and>
     pwm_enable s1 = runs r s \<and> pwm_enable s2 = runs r s \<and>
     mode s1 = (if runs r s then POWERMODE else IDLEMODE) \<and>
     mode s2 = (if runs r s then POWERMODE else IDLEMODE) \<and>
     count_list (hw s1) StartAll =
       count_list (hw s) StartAll + (if runs r s \<and> \<not> pwm_enable s then 1 else 0) \<and>
     count_list (hw s1) StopAll =
       count_list (hw s) StopAll + (if \<not> runs r s \<and> pwm_enable s then 1 else 0) \<and>
     count_list (hw s2) StartAll = count_list (hw s1) StartAll \<and>
     count_list (hw s2) StopAll = count_list (hw s1) StopAll"
proof -
  from critical_pwm [OF assms, of r calc l1] obtain s1 where
    s1: "loop_critical_task r calc l1 s = Inr s1" "wf s1" "pwm_enable s1 = runs r s"
      "runs r s1 = runs r s" "mode s1 = (if runs r s then POWERMODE else IDLEMODE)"
      "count_list (hw s1) StartAll =
         count_list (hw s) StartAll + (if runs r s \<and> \<not> pwm_enable s then 1 else 0)"
      "count_list (hw s1) StopAll =
         count_list (hw s) StopAll + (if \<not> runs r s \<and> pwm_enable s then 1 else 0)"
    by blast
  from critical_pwm [OF \<open>wf s1\<close>, of r calc l2] obtain s2 where
    s2: "loop_critical_task r calc l2 s1 = Inr s2" "pwm_enable s2 = runs r s1"
      "mode s2 = (if runs r s1 then POWERMODE else IDLEMODE)"
      "count_list (hw s2) StartAll =
         count_list (hw s1) StartAll + (if runs r s1 \<and> \<not> pwm_enable s1 then 1 else 0)"
      "count_list (hw s2) StopAll =
         count_list (hw s1) StopAll + (if \<not> runs r s1 \<and> pwm_enable s1 then 1 else 0)"
    by blast
  have a: "count_list (hw s2) StartAll = count_list (hw s1) StartAll"
    using s2(4) s1(3,4) by simp
  have b: "count_list (hw s2) StopAll = count_list (hw s1) StopAll"
    using s2(5) s1(3,4) by simp
  show ?thesis
    using s1(1,3,5,6,7) s2(1) s2(2) s2(3) a b s1(4) by auto
qed

text \<open>The theorem on the server: from start-up with the mode set to power, two periods
  issue one \<open>startAll\<close> call; from a state with the PWM running and the mode idle, two
  periods issue one \<open>stopAll\<close> call.\<close>

theorem pwm_switched_once_per_transition_witness:
  "wf ((init_state ())\<lparr>mode := POWERMODE\<rparr>) \<and>
   (\<exists>s1 s2.
      loop_critical_task SERVER zero_calc (\<lambda>c. 0) ((init_state ())\<lparr>mode := POWERMODE\<rparr>) = Inr s1 \<and>
      loop_critical_task SERVER zero_calc (\<lambda>c. 0) s1 = Inr s2 \<and>
      pwm_enable s2 \<and> count_list (hw s2) StartAll = 1 \<and> count_list (hw s2) StopAll = 0) \<and>
   wf ((init_state ())\<lparr>pwm_enable := True\<rparr>) \<and>
   (\<exists>s1 s2.
      loop_critical_task SERVER zero_calc (\<lambda>c. 0) ((init_state ())\<lparr>pwm_enable := True\<rparr>) = Inr s1 \<and>
      loop_critical_task SERVER zero_calc (\<lambda>c. 0) s1 = Inr s2 \<and>
      \<not> pwm_enable s2 \<and> count_list (hw s2) StartAll = 0 \<and> count_list (hw s2) StopAll = 1)"
proof -
  have w1: "wf ((init_state ())\<lparr>mode := POWERMODE\<rparr>)"
    and w2: "wf ((init_state ())\<lparr>pwm_enable := True\<rparr>)"
    by (simp_all add: wf_def init_state_def RECORD_SIZE_def)
  have r1: "runs SERVER ((init_state ())\<lparr>mode := POWERMODE\<rparr>)"
    and r2: "\<not> runs SERVER ((init_state ())\<lparr>pwm_enable := True\<rparr>)"
    by (simp_all add: runs_def init_state_def)
  have h1: "hw ((init_state ())\<lparr>mode := POWERMODE\<rparr>) = []"
    "\<not> pwm_enable ((init_state ())\<lparr>mode := POWERMODE\<rparr>)"
    and h2: "hw ((init_state ())\<lparr>pwm_enable := True\<rparr>) = []"
    "pwm_enable ((init_state ())\<lparr>pwm_enable := True\<rparr>)"
    by (simp_all add: init_state_def)
  from pwm_switched_once_per_transition [OF w1, of SERVER zero_calc "\<lambda>c. 0" "\<lambda>c. 0"]
  obtain a1 a2 where
    "loop_critical_task SERVER zero_calc (\<lambda>c. 0) ((init_state ())\<lparr>mode := POWERMODE\<rparr>) = Inr a1"
    and "loop_critical_task SERVER zero_calc (\<lambda>c. 0) a1 = Inr a2"
    and "pwm_enable a2" and "count_list (hw a2) StartAll = 1"
    and "count_list (hw a2) StopAll = 0"
    by (auto simp add: r1 h1)
  moreover
  from pwm_switched_once_per_transition [OF w2, of SERVER zero_calc "\<lambda>c. 0" "\<lambda>c. 0"]
  obtain b1 b2 where
    "loop_critical_task SERVER zero_calc (\<lambda>c. 0) ((init_state ())\<lparr>pwm_enable := True\<rparr>) = Inr b1"
    and "loop_critical_task SERVER zero_calc (\<lambda>c. 0) b1 = Inr b2"
    and "\<not> pwm_enable b2" and "count_list (hw b2) StartAll = 0"
    and "count_list (hw b2) StopAll = 1"
    by (auto simp add: r2 h2)
  ultimately show ?thesis using w1 w2 by blast
qed

section \<open>The client follows the received status\<close>

text \<open>
  C9. On the client, a control period in which the two low bits of the retained status
  are 1 or 2 sets the mode to \<open>POWERMODE\<close>, whatever the mode was before. The console
  command \<open>i\<close> sets the mode to \<open>IDLEMODE\<close> and leaves the status as it is, so the next
  control period sets the mode to \<open>POWERMODE\<close> again.
\<close>

theorem client_run_code_overrides_console:
  assumes "status s AND 3 = 1 \<or> status s AND 3 = 2" and "wf s"
  shows "(\<exists>s'. loop_critical_task CLIENT calc l s = Inr s' \<and> mode s' = POWERMODE) \<and>
         mode (loop_communication_task CLIENT (CHR ''i'') s) = IDLEMODE \<and>
         status (loop_communication_task CLIENT (CHR ''i'') s) = status s \<and>
         (\<exists>s'. loop_critical_task CLIENT calc l (loop_communication_task CLIENT (CHR ''i'') s)
                  = Inr s' \<and> mode s' = POWERMODE)"
proof -
  let ?t = "loop_communication_task CLIENT (CHR ''i'') s"
  have t: "wf ?t" "status ?t = status s" "mode ?t = IDLEMODE"
    using assms(2) by (simp_all add: loop_communication_task_def wf_def RECORD_SIZE_def)
  have r1: "runs CLIENT s" using assms(1) by (simp add: runs_def)
  have r2: "runs CLIENT ?t" using assms(1) t(2) by (simp add: runs_def)
  from critical_pwm [OF assms(2), of CLIENT calc l] r1
  have 1: "\<exists>s'. loop_critical_task CLIENT calc l s = Inr s' \<and> mode s' = POWERMODE" by auto
  from critical_pwm [OF t(1), of CLIENT calc l] r2
  have 2: "\<exists>s'. loop_critical_task CLIENT calc l ?t = Inr s' \<and> mode s' = POWERMODE" by auto
  from 1 2 t show ?thesis by blast
qed

text \<open>The theorem on a client in power mode that holds the status \<open>0x41\<close>.\<close>

theorem client_run_code_overrides_console_witness:
  "(status ((init_state ())\<lparr>status := 0x41, mode := POWERMODE\<rparr>) AND 3 = 1 \<or>
    status ((init_state ())\<lparr>status := 0x41, mode := POWERMODE\<rparr>) AND 3 = 2) \<and>
   wf ((init_state ())\<lparr>status := 0x41, mode := POWERMODE\<rparr>) \<and>
   mode (loop_communication_task CLIENT (CHR ''i'')
           ((init_state ())\<lparr>status := 0x41, mode := POWERMODE\<rparr>)) = IDLEMODE \<and>
   (\<exists>s'. loop_critical_task CLIENT zero_calc (\<lambda>c. 0)
            (loop_communication_task CLIENT (CHR ''i'')
               ((init_state ())\<lparr>status := 0x41, mode := POWERMODE\<rparr>)) = Inr s' \<and>
          mode s' = POWERMODE)"
proof -
  have a: "status ((init_state ())\<lparr>status := 0x41, mode := POWERMODE\<rparr>) AND 3 = 1 \<or>
    status ((init_state ())\<lparr>status := 0x41, mode := POWERMODE\<rparr>) AND 3 = 2"
    by (simp add: init_state_def)
  have w: "wf ((init_state ())\<lparr>status := 0x41, mode := POWERMODE\<rparr>)"
    by (simp add: wf_def init_state_def RECORD_SIZE_def)
  from client_run_code_overrides_console [OF a w, of zero_calc "\<lambda>c. 0"] a w
  show ?thesis by blast
qed

section \<open>The record cursor\<close>

lemma record_append_step:
  "wf s \<Longrightarrow>
   record_append x s =
     Inr (s\<lparr>record_array := (record_array s)[unat (counter s) := x],
            counter := (if unat (counter s) < RECORD_SIZE - 1
                        then counter s + 1 else counter s)\<rparr>)"
  by (simp add: record_append_def wf_def)

lemma record_append_cursor:
  assumes "wf s"
  shows "\<exists>s'. record_append x s = Inr s' \<and> wf s' \<and>
     unat (counter s') = min (unat (counter s) + 1) (RECORD_SIZE - 1) \<and>
     record_array s' = (record_array s)[unat (counter s) := x]"
  using assms
  by (simp add: record_append_step) (auto simp add: wf_def RECORD_SIZE_def unat_suc_counter)

lemma append_all_cursor:
  assumes "wf s"
  shows "\<exists>s'. append_all xs s = Inr s' \<and> wf s' \<and>
     unat (counter s') = min (unat (counter s) + length xs) (RECORD_SIZE - 1) \<and>
     (\<forall>i. i < unat (counter s) \<longrightarrow> record_array s' ! i = record_array s ! i)"
  using assms
proof (induction xs arbitrary: s)
  case Nil
  then show ?case by (simp add: wf_def RECORD_SIZE_def)
next
  case (Cons x xs)
  from record_append_cursor [OF Cons.prems, of x] obtain s1 where
    s1: "record_append x s = Inr s1" "wf s1"
      "unat (counter s1) = min (unat (counter s) + 1) (RECORD_SIZE - 1)"
      "record_array s1 = (record_array s)[unat (counter s) := x]"
    by blast
  from Cons.IH [OF s1(2)] obtain s2 where
    s2: "append_all xs s1 = Inr s2" "wf s2"
      "unat (counter s2) = min (unat (counter s1) + length xs) (RECORD_SIZE - 1)"
      "\<forall>i. i < unat (counter s1) \<longrightarrow> record_array s2 ! i = record_array s1 ! i"
    by blast
  have a: "append_all (x # xs) s = Inr s2" by (simp add: s1 s2)
  have b: "unat (counter s2) = min (unat (counter s) + length (x # xs)) (RECORD_SIZE - 1)"
    using s2(3) s1(3) by (simp add: min_def)
  from Cons.prems have le: "unat (counter s) \<le> unat (counter s1)"
    using s1(3) by (simp add: wf_def RECORD_SIZE_def min_def)
  have c: "\<forall>i. i < unat (counter s) \<longrightarrow> record_array s2 ! i = record_array s ! i"
  proof (intro allI impI)
    fix i assume i: "i < unat (counter s)"
    with le have "i < unat (counter s1)" by simp
    with s2(4) have "record_array s2 ! i = record_array s1 ! i" by simp
    also from i have "\<dots> = record_array s ! i" by (simp add: s1(4))
    finally show "record_array s2 ! i = record_array s ! i" .
  qed
  from a s2(2) b c show ?case by blast
qed

lemma critical_cursor:
  assumes "wf s"
  shows "\<exists>s'. loop_critical_task r calc l s = Inr s' \<and> wf s' \<and>
     unat (counter s) \<le> unat (counter s') \<and>
     (unat (counter s) = RECORD_SIZE - 1 \<longrightarrow> counter s' = counter s) \<and>
     (\<forall>i. i \<noteq> unat (counter s) \<longrightarrow> record_array s' ! i = record_array s ! i)"
proof (cases r)
  case SERVER
  show ?thesis
  proof (cases "mode s")
    case IDLEMODE
    with SERVER assms show ?thesis
      by (simp add: loop_critical_task_def server_control_def Let_def wf_def)
  next
    case POWERMODE
    with SERVER assms show ?thesis
      apply (simp add: loop_critical_task_def server_control_def Let_def split: prod.splits)
      apply (simp add: record_every_4th_wf wf_def)
      apply (simp add: wf_def unat_suc_counter RECORD_SIZE_def)
      done
  qed
next
  case CLIENT
  with assms show ?thesis
    apply (simp add: loop_critical_task_def client_control_def Let_def split: prod.splits)
    apply (simp add: record_every_4th_wf wf_def)
    apply (simp add: wf_def unat_suc_counter RECORD_SIZE_def)
    done
qed

lemma run_critical_cursor:
  assumes "wf s"
  shows "\<exists>s'. run_critical r calc ls s = Inr s' \<and> wf s' \<and>
     unat (counter s) \<le> unat (counter s') \<and>
     (unat (counter s) = RECORD_SIZE - 1 \<longrightarrow> counter s' = counter s) \<and>
     (\<forall>i. i < unat (counter s) \<longrightarrow> record_array s' ! i = record_array s ! i)"
  using assms
proof (induction ls arbitrary: s)
  case Nil
  then show ?case by simp
next
  case (Cons l ls)
  from critical_cursor [OF Cons.prems, of r calc l] obtain s1 where
    s1: "loop_critical_task r calc l s = Inr s1" "wf s1"
      "unat (counter s) \<le> unat (counter s1)"
      "unat (counter s) = RECORD_SIZE - 1 \<longrightarrow> counter s1 = counter s"
      "\<forall>i. i \<noteq> unat (counter s) \<longrightarrow> record_array s1 ! i = record_array s ! i"
    by blast
  from Cons.IH [OF s1(2)] obtain s2 where
    s2: "run_critical r calc ls s1 = Inr s2" "wf s2"
      "unat (counter s1) \<le> unat (counter s2)"
      "unat (counter s1) = RECORD_SIZE - 1 \<longrightarrow> counter s2 = counter s1"
      "\<forall>i. i < unat (counter s1) \<longrightarrow> record_array s2 ! i = record_array s1 ! i"
    by blast
  have a: "run_critical r calc (l # ls) s = Inr s2" by (simp add: s1 s2)
  have b: "unat (counter s) \<le> unat (counter s2)" using s1(3) s2(3) by simp
  have c: "unat (counter s) = RECORD_SIZE - 1 \<longrightarrow> counter s2 = counter s"
    using s1(4) s2(4) by auto
  have d: "\<forall>i. i < unat (counter s) \<longrightarrow> record_array s2 ! i = record_array s ! i"
  proof (intro allI impI)
    fix i assume i: "i < unat (counter s)"
    with s1(3) have "i < unat (counter s1)" by simp
    with s2(5) have "record_array s2 ! i = record_array s1 ! i" by simp
    also from i s1(5) have "\<dots> = record_array s ! i" by simp
    finally show "record_array s2 ! i = record_array s ! i" .
  qed
  from a s2(2) b c d show ?case by blast
qed

text \<open>
  C4 (amended). From a state in which the cursor is inside the array, any number of
  appends, and any number of control periods of either role, run without a write
  outside \<open>record_array\<close> and leave the cursor inside the array. The cursor never
  decreases, and the slots below it are never written again. After \<open>n\<close> appends the
  cursor is the smaller of its old value plus \<open>n\<close> and \<open>RECORD_SIZE - 1\<close>; this holds for
  \<open>RECORD_SIZE + 10\<close> appends and more. Once the cursor is \<open>RECORD_SIZE - 1\<close> it stays
  there, and each further append overwrites the last slot, and only that slot, with the
  new record.
\<close>

theorem record_cursor_saturates:
  assumes "wf s"
  shows "(\<exists>s'. append_all xs s = Inr s' \<and> wf s' \<and>
       unat (counter s') = min (unat (counter s) + length xs) (RECORD_SIZE - 1) \<and>
       (\<forall>i. i < unat (counter s) \<longrightarrow> record_array s' ! i = record_array s ! i)) \<and>
    (unat (counter s) = RECORD_SIZE - 1 \<longrightarrow>
       (\<exists>s'. record_append x s = Inr s' \<and> counter s' = counter s \<and>
          record_array s' = (record_array s)[RECORD_SIZE - 1 := x])) \<and>
    (\<exists>s'. run_critical r calc ls s = Inr s' \<and> wf s' \<and>
       unat (counter s) \<le> unat (counter s') \<and>
       (unat (counter s) = RECORD_SIZE - 1 \<longrightarrow> counter s' = counter s) \<and>
       (\<forall>i. i < unat (counter s) \<longrightarrow> record_array s' ! i = record_array s ! i))"
proof -
  have "unat (counter s) = RECORD_SIZE - 1 \<longrightarrow>
       (\<exists>s'. record_append x s = Inr s' \<and> counter s' = counter s \<and>
          record_array s' = (record_array s)[RECORD_SIZE - 1 := x])"
    using assms by (simp add: record_append_step)
  with append_all_cursor [OF assms, of xs] run_critical_cursor [OF assms, of r calc ls]
  show ?thesis by blast
qed

text \<open>The theorem at start-up with \<open>RECORD_SIZE + 10\<close> appends, which leave the cursor
  at 2047, and at a state whose cursor is 2047.\<close>

theorem record_cursor_saturates_witness:
  "wf (init_state ()) \<and>
   (\<exists>s'. append_all (replicate (RECORD_SIZE + 10) zero_record) (init_state ()) = Inr s' \<and>
      wf s' \<and> unat (counter s') = 2047) \<and>
   wf ((init_state ())\<lparr>counter := 2047\<rparr>) \<and>
   unat (counter ((init_state ())\<lparr>counter := 2047\<rparr>)) = RECORD_SIZE - 1 \<and>
   (\<exists>s'. record_append zero_record ((init_state ())\<lparr>counter := 2047\<rparr>) = Inr s' \<and>
      counter s' = 2047)"
proof -
  have w: "wf ((init_state ())\<lparr>counter := 2047\<rparr>)"
    by (simp add: wf_def init_state_def RECORD_SIZE_def)
  have c0: "unat (counter (init_state ())) = 0"
    and c1: "unat (counter ((init_state ())\<lparr>counter := 2047\<rparr>)) = RECORD_SIZE - 1"
    and c2: "counter ((init_state ())\<lparr>counter := 2047\<rparr>) = 2047"
    by (simp_all add: init_state_def RECORD_SIZE_def)
  from record_cursor_saturates [OF wf_init,
      of "replicate (RECORD_SIZE + 10) zero_record" "()" zero_record SERVER zero_calc "[]"]
  have e1: "\<exists>s'. append_all (replicate (RECORD_SIZE + 10) zero_record) (init_state ()) = Inr s' \<and>
      wf s' \<and> unat (counter s') = 2047"
    by (auto simp add: c0 RECORD_SIZE_def)
  from record_cursor_saturates [OF w, of "[]" zero_record SERVER zero_calc "[]"] c1
  have e2: "\<exists>s'. record_append zero_record ((init_state ())\<lparr>counter := 2047\<rparr>) = Inr s' \<and>
      counter s' = 2047"
    by (auto simp add: c2)
  have wi: "wf (init_state ())" by (rule wf_init)
  from wi e1 w c1 e2 show ?thesis by (intro conjI)
qed

text \<open>The claim as the spec states it says that once the cursor is \<open>RECORD_SIZE - 1\<close>
  no slot is overwritten, the last one included. A client whose cursor is 2047 runs one
  control period with a sample of 1, which is a recording period: the cursor stays at
  2047 and the last slot holds the current 1. Four periods later, with a sample of 2,
  the next recording period has replaced that record: the last slot holds the
  current 2.\<close>

theorem last_slot_counterexample:
  "unat (counter ((init_state ())\<lparr>status := 0x41, counter := 2047\<rparr>)) = RECORD_SIZE - 1 \<and>
   (case run_critical CLIENT zero_calc [\<lambda>c. 1]
           ((init_state ())\<lparr>status := 0x41, counter := 2047\<rparr>) of
      Inl e \<Rightarrow> False
    | Inr s' \<Rightarrow> counter s' = 2047 \<and> r_I_low (record_array s' ! 2047) = 1) \<and>
   (case run_critical CLIENT zero_calc [\<lambda>c. 1, \<lambda>c. 2, \<lambda>c. 2, \<lambda>c. 2, \<lambda>c. 2]
           ((init_state ())\<lparr>status := 0x41, counter := 2047\<rparr>) of
      Inl e \<Rightarrow> False
    | Inr s' \<Rightarrow> counter s' = 2047 \<and> r_I_low (record_array s' ! 2047) = 2)"
  by (simp add: loop_critical_task_def acquire_def client_control_def Let_def init_state_def
        zero_calc_def record_every_4th_wf RECORD_SIZE_def zero_record_def)

section \<open>Numeric facts\<close>

lemma sin_sum5: "(\<Sum>m<5. sin_coeff m * x ^ m) = x - x ^ 3 / 6" for x :: real
proof -
  have "(\<Sum>m<5. f m) = f 0 + f 1 + f 2 + f 3 + f 4" for f :: "nat \<Rightarrow> real"
    by (simp add: eval_nat_numeral)
  then show ?thesis
    by (simp add: sin_coeff_def fact_numeral)
qed

lemma sin_quintic:
  "\<bar>sin x - (x - x ^ 3 / 6)\<bar> \<le> \<bar>x\<bar> ^ 5 / 120" for x :: real
  using Maclaurin_sin_bound [of x 5] by (simp add: sin_sum5 fact_numeral)

lemma sin_upper:
  fixes x :: real
  assumes "0 \<le> x"
  shows "sin x \<le> x - x ^ 3 / 6 + x ^ 5 / 120"
proof -
  from assms have "\<bar>x\<bar> ^ 5 = x ^ 5" by simp
  with sin_quintic [of x] show ?thesis by linarith
qed

lemma sin_lower:
  fixes x :: real
  assumes "0 \<le> x"
  shows "x - x ^ 3 / 6 - x ^ 5 / 120 \<le> sin x"
proof -
  from assms have "\<bar>x\<bar> ^ 5 = x ^ 5" by simp
  with sin_quintic [of x] show ?thesis by linarith
qed

lemma pi_gt_3138: "3138 / 1000 < pi"
proof (rule ccontr)
  assume "\<not> 3138 / 1000 < pi"
  then have le: "pi / 6 \<le> 523 / 1000" by simp
  have "sin (pi / 6) \<le> sin (523 / 1000)"
    by (rule sin_monotone_2pi_le) (use le pi_ge_two in simp_all)
  then have 1: "1 / 2 \<le> sin (523 / 1000 :: real)" by (simp add: sin_30)
  have "sin (523 / 1000 :: real) \<le> 523 / 1000 - (523 / 1000) ^ 3 / 6 + (523 / 1000) ^ 5 / 120"
    by (rule sin_upper) simp
  also have "\<dots> < 1 / 2" by (simp add: power_divide)
  finally show False using 1 by simp
qed

lemma pi_lt_315: "pi < 315 / 100"
proof (rule ccontr)
  assume "\<not> pi < 315 / 100"
  then have le: "525 / 1000 \<le> pi / 6" by simp
  have "sin (525 / 1000) \<le> sin (pi / 6)"
    by (rule sin_monotone_2pi_le) (use le pi_ge_two in simp_all)
  then have 1: "sin (525 / 1000 :: real) \<le> 1 / 2" by (simp add: sin_30)
  have "(1 / 2 :: real) < 525 / 1000 - (525 / 1000) ^ 3 / 6 - (525 / 1000) ^ 5 / 120"
    by (simp add: power_divide)
  also have "\<dots> \<le> sin (525 / 1000 :: real)"
    by (rule sin_lower) simp
  finally show False using 1 by simp
qed

lemma sin_pi_100_bounds: "376 / 1000 < 12 * sin (pi / 100)" "12 * sin (pi / 100) < 378 / 1000"
proof -
  have x: "3138 / 100000 < pi / 100" "pi / 100 < 315 / 10000"
    using pi_gt_3138 pi_lt_315 by simp_all
  have "sin (pi / 100) \<le> pi / 100" by (rule sin_x_le_x) simp
  with x(2) show "12 * sin (pi / 100) < 378 / 1000" by simp
  have p3: "(pi / 100) ^ 3 \<le> (315 / 10000) ^ 3"
    by (rule power_mono) (use x(2) in simp_all)
  have p5: "(pi / 100) ^ 5 \<le> (315 / 10000) ^ 5"
    by (rule power_mono) (use x(2) in simp_all)
  have "pi / 100 - (pi / 100) ^ 3 / 6 - (pi / 100) ^ 5 / 120 \<le> sin (pi / 100)"
    by (rule sin_lower) simp
  moreover have "(376 / 12000 :: real) < 3138 / 100000 - (315 / 10000) ^ 3 / 6 - (315 / 10000) ^ 5 / 120"
    by (simp add: power_divide)
  ultimately have "376 / 12000 < sin (pi / 100)"
    using x(1) p3 p5 by linarith
  then show "376 / 1000 < 12 * sin (pi / 100)" by simp
qed

lemma floor_wrap:
  "0 \<le> x - 2 * pi * of_int \<lfloor>x / (2 * pi)\<rfloor> \<and> x - 2 * pi * of_int \<lfloor>x / (2 * pi)\<rfloor> < 2 * pi"
proof -
  have p: "0 < 2 * pi" by simp
  have a: "of_int \<lfloor>x / (2 * pi)\<rfloor> * (2 * pi) \<le> x"
    using of_int_floor_le [of "x / (2 * pi)"] p by (simp only: pos_le_divide_eq)
  have "x / (2 * pi) < of_int \<lfloor>x / (2 * pi)\<rfloor> + 1"
    by linarith
  then have b: "x < (of_int \<lfloor>x / (2 * pi)\<rfloor> + 1) * (2 * pi)"
    using p by (simp only: pos_divide_less_eq)
  from a b show ?thesis by (simp add: algebra_simps)
qed

section \<open>The server in power mode\<close>

lemma modulo_2pi_range: "0 \<le> ot_modulo_2pi x \<and> ot_modulo_2pi x < 2 * pi"
  unfolding ot_modulo_2pi_def by (rule floor_wrap)

lemma modulo_2pi_small: "ot_modulo_2pi (pi / 100) = pi / 100"
proof -
  have "(pi / 100) / (2 * pi) = 1 / 200" by simp
  then have "\<lfloor>(pi / 100) / (2 * pi)\<rfloor> = 0" by simp
  then show ?thesis unfolding ot_modulo_2pi_def by simp
qed

lemma server_power_tick:
  assumes "wf s" and "mode s = POWERMODE"
  shows "\<exists>s'. loop_critical_task SERVER calc l s = Inr s' \<and>
     angle s' = ot_modulo_2pi (angle s + w0 s * Ts s) \<and>
     Vgrid s' = Vgrid_amplitude s * ot_sin (angle s') \<and>
     V1_low_value s' = V1_low_value (acquire l s) \<and>
     V2_low_value s' = V2_low_value (acquire l s) \<and>
     duty_cycle s' =
       0.5 + fst (calc (pr_voltage s) (Vgrid s') (V1_low_value s' - V2_low_value s')) / (2 * Udc) \<and>
     duties (hw s') = duties (hw s) @ [duty_cycle s']"
  using assms
  apply (simp add: loop_critical_task_def server_control_def Let_def split: prod.splits)
  apply (simp add: record_every_4th_wf wf_def)
  done


text \<open>
  C6. In every control period of the server in power mode, from a state in which the
  record cursor is inside the array: the new angle is the old angle plus \<open>w0 * Ts\<close>, less
  a whole multiple of \<open>2\<pi>\<close>, and lies in \<open>[0, 2\<pi>)\<close>; the voltage reference is the
  amplitude times the sine of the new angle; the duty cycle handed to the PWM driver is
  \<open>0.5 + correction / (2 * Udc)\<close>, where the correction is the output of the regulator
  for the reference \<open>Vgrid\<close> and the measurement \<open>V1_low - V2_low\<close>. With \<open>w0 = 2 * pi * 50\<close>,
  \<open>Ts = 100e-6\<close>, amplitude 12 and angle 0 before the period, the angle after it is
  \<open>2 * pi * 50 * 100e-6\<close>, within 0.0001 of 0.0314, and the voltage reference is
  within 0.001 of 0.377.
\<close>

theorem server_power_period:
  assumes "wf s" and "mode s = POWERMODE"
  shows "\<exists>s'. loop_critical_task SERVER calc l s = Inr s' \<and>
     (\<exists>k::int. angle s' = angle s + w0 s * Ts s - 2 * pi * of_int k) \<and>
     0 \<le> angle s' \<and> angle s' < 2 * pi \<and>
     Vgrid s' = Vgrid_amplitude s * sin (angle s') \<and>
     duty_cycle s' =
       0.5 + fst (calc (pr_voltage s) (Vgrid s') (V1_low_value s' - V2_low_value s')) / (2 * Udc) \<and>
     duties (hw s') = duties (hw s) @ [duty_cycle s'] \<and>
     (angle s = 0 \<and> w0 s = 2 * pi * 50 \<and> Ts s = 100 * (1 / 1000000) \<and> Vgrid_amplitude s = 12 \<longrightarrow>
        angle s' = 2 * pi * 50 * (100 * (1 / 1000000)) \<and>
        \<bar>angle s' - 314 / 10000\<bar> < 1 / 10000 \<and>
        Vgrid s' = 12 * sin (2 * pi * 50 * (100 * (1 / 1000000))) \<and>
        \<bar>Vgrid s' - 377 / 1000\<bar> < 1 / 1000)"
proof -
  from server_power_tick [OF assms, of calc l] obtain s' where
    s': "loop_critical_task SERVER calc l s = Inr s'"
      "angle s' = ot_modulo_2pi (angle s + w0 s * Ts s)"
      "Vgrid s' = Vgrid_amplitude s * ot_sin (angle s')"
      "duty_cycle s' =
         0.5 + fst (calc (pr_voltage s) (Vgrid s') (V1_low_value s' - V2_low_value s')) / (2 * Udc)"
      "duties (hw s') = duties (hw s) @ [duty_cycle s']"
    by blast
  have k: "\<exists>k::int. angle s' = angle s + w0 s * Ts s - 2 * pi * of_int k"
    unfolding s'(2) ot_modulo_2pi_def by blast
  have r: "0 \<le> angle s'" "angle s' < 2 * pi"
    unfolding s'(2) using modulo_2pi_range by blast+
  have v: "Vgrid s' = Vgrid_amplitude s * sin (angle s')"
    using s'(3) by (simp add: ot_sin_def)
  have sc: "angle s' = 2 * pi * 50 * (100 * (1 / 1000000)) \<and>
        \<bar>angle s' - 314 / 10000\<bar> < 1 / 10000 \<and>
        Vgrid s' = 12 * sin (2 * pi * 50 * (100 * (1 / 1000000))) \<and>
        \<bar>Vgrid s' - 377 / 1000\<bar> < 1 / 1000"
    if h: "angle s = 0 \<and> w0 s = 2 * pi * 50 \<and> Ts s = 100 * (1 / 1000000) \<and> Vgrid_amplitude s = 12"
  proof -
    from h have "angle s + w0 s * Ts s = pi / 100" by simp
    with s'(2) have a: "angle s' = pi / 100" by (simp add: modulo_2pi_small)
    with v h have g: "Vgrid s' = 12 * sin (pi / 100)" by simp
    have e: "2 * pi * 50 * (100 * (1 / 1000000)) = pi / 100" by simp
    have "\<bar>pi / 100 - 314 / 10000\<bar> < 1 / 10000"
      using pi_gt_3138 pi_lt_315 by linarith
    moreover have "\<bar>12 * sin (pi / 100) - 377 / 1000\<bar> < 1 / 1000"
      using sin_pi_100_bounds by linarith
    ultimately show ?thesis by (simp only: a g e)
  qed
  from s'(1) k r v s'(4) s'(5) sc show ?thesis by blast
qed

text \<open>The theorem on the server at start-up with the mode set to power: the start-up
  values of \<open>w0\<close>, \<open>Ts\<close>, the amplitude and the angle are those of the scenario.\<close>

theorem server_power_period_witness:
  "wf ((init_state ())\<lparr>mode := POWERMODE\<rparr>) \<and>
   mode ((init_state ())\<lparr>mode := POWERMODE\<rparr>) = POWERMODE \<and>
   (\<exists>s'. loop_critical_task SERVER zero_calc (\<lambda>c. 0)
            ((init_state ())\<lparr>mode := POWERMODE\<rparr>) = Inr s' \<and>
      angle s' = pi / 100 \<and> \<bar>angle s' - 314 / 10000\<bar> < 1 / 10000 \<and>
      \<bar>Vgrid s' - 377 / 1000\<bar> < 1 / 1000 \<and> duty_cycle s' = 1 / 2)"
proof -
  have w: "wf ((init_state ())\<lparr>mode := POWERMODE\<rparr>)"
    by (simp add: wf_def init_state_def RECORD_SIZE_def)
  have m: "mode ((init_state ())\<lparr>mode := POWERMODE\<rparr>) = POWERMODE"
    by simp
  have i: "angle ((init_state ())\<lparr>mode := POWERMODE\<rparr>) = 0"
    "w0 ((init_state ())\<lparr>mode := POWERMODE\<rparr>) = 2 * pi * 50"
    "Ts ((init_state ())\<lparr>mode := POWERMODE\<rparr>) = 100 * (1 / 1000000)"
    "Vgrid_amplitude ((init_state ())\<lparr>mode := POWERMODE\<rparr>) = 12"
    by (simp_all add: init_state_def f0_def control_task_period_def)
  from server_power_period [OF w m, of zero_calc "\<lambda>c. 0"] obtain s' where
    "loop_critical_task SERVER zero_calc (\<lambda>c. 0) ((init_state ())\<lparr>mode := POWERMODE\<rparr>) = Inr s'"
    and "angle s' = pi / 100" and "\<bar>angle s' - 314 / 10000\<bar> < 1 / 10000"
    and "\<bar>Vgrid s' - 377 / 1000\<bar> < 1 / 1000" and "duty_cycle s' = 1 / 2"
    by (auto simp add: i zero_calc_def)
  with w m show ?thesis by blast
qed

section \<open>Duty cycle of the server\<close>

lemma server_duty_range:
  "- Udc \<le> c \<Longrightarrow> c \<le> Udc \<Longrightarrow> 0 \<le> 0.5 + c / (2 * Udc) \<and> 0.5 + c / (2 * Udc) \<le> 1"
  by (simp add: Udc_def field_simps)

lemma server_tick_duties:
  assumes "pr_saturates calc" and "wf s" and "duties_ok (hw s)"
  shows "\<exists>s'. loop_critical_task SERVER calc l s = Inr s' \<and> wf s' \<and> duties_ok (hw s') \<and>
     (mode s = POWERMODE \<longrightarrow>
        duties (hw s') = duties (hw s) @ [duty_cycle s'] \<and>
        (\<exists>c. - Udc \<le> c \<and> c \<le> Udc \<and> duty_cycle s' = 0.5 + c / (2 * Udc)))"
proof (cases "mode s")
  case IDLEMODE
  with assms show ?thesis
    by (simp add: loop_critical_task_def server_control_def Let_def wf_def duties_ok_def)
next
  case POWERMODE
  obtain c p where cp: "calc (pr_voltage s)
     (Vgrid_amplitude s * ot_sin (ot_modulo_2pi (angle s + w0 s * Ts s)))
     (V1_low_value (acquire l s) - V2_low_value (acquire l s)) = (c, p)"
    by force
  from assms(1) have "- Udc \<le> fst (calc (pr_voltage s)
     (Vgrid_amplitude s * ot_sin (ot_modulo_2pi (angle s + w0 s * Ts s)))
     (V1_low_value (acquire l s) - V2_low_value (acquire l s)))"
    and "fst (calc (pr_voltage s)
     (Vgrid_amplitude s * ot_sin (ot_modulo_2pi (angle s + w0 s * Ts s)))
     (V1_low_value (acquire l s) - V2_low_value (acquire l s))) \<le> Udc"
    by (simp_all add: pr_saturates_def)
  with cp have c: "- Udc \<le> c" "c \<le> Udc" by simp_all
  from server_duty_range [OF c] have d: "0 \<le> 0.5 + c / (2 * Udc)" "0.5 + c / (2 * Udc) \<le> 1"
    by simp_all
  from POWERMODE assms(2,3) cp c d show ?thesis
    apply (simp add: loop_critical_task_def server_control_def Let_def)
    apply (simp add: record_every_4th_wf wf_def)
    apply (simp add: wf_def unat_suc_counter RECORD_SIZE_def duties_ok_def)
    apply blast
    done
qed


text \<open>
  C7. For every correction between \<open>-Udc\<close> and \<open>Udc\<close>, the value
  \<open>0.5 + correction / (2 * Udc)\<close> lies between 0 and 1. Hence, with a regulator whose
  output stays within these limits, the duty cycle the server computes in a control
  period in power mode, which is the one it hands to the PWM driver, lies between 0
  and 1, and so does every duty cycle handed over in a run of control periods.
\<close>

theorem server_duty_in_unit_interval:
  assumes "pr_saturates calc" and "wf s" and "duties_ok (hw s)"
  shows "(\<forall>c. - Udc \<le> c \<and> c \<le> Udc \<longrightarrow> 0 \<le> 0.5 + c / (2 * Udc) \<and> 0.5 + c / (2 * Udc) \<le> 1) \<and>
    (\<exists>s'. loop_critical_task SERVER calc l s = Inr s' \<and>
       (mode s = POWERMODE \<longrightarrow>
          duties (hw s') = duties (hw s) @ [duty_cycle s'] \<and>
          0 \<le> duty_cycle s' \<and> duty_cycle s' \<le> 1)) \<and>
    (\<exists>s'. run_critical SERVER calc ls s = Inr s' \<and> duties_ok (hw s'))"
proof -
  have a: "\<forall>c. - Udc \<le> c \<and> c \<le> Udc \<longrightarrow> 0 \<le> 0.5 + c / (2 * Udc) \<and> 0.5 + c / (2 * Udc) \<le> 1"
    using server_duty_range by blast
  from server_tick_duties [OF assms, of l] obtain s' where
    s': "loop_critical_task SERVER calc l s = Inr s'"
      "mode s = POWERMODE \<longrightarrow>
        duties (hw s') = duties (hw s) @ [duty_cycle s'] \<and>
        (\<exists>c. - Udc \<le> c \<and> c \<le> Udc \<and> duty_cycle s' = 0.5 + c / (2 * Udc))"
    by blast
  from s'(2) a have "mode s = POWERMODE \<longrightarrow>
          duties (hw s') = duties (hw s) @ [duty_cycle s'] \<and>
          0 \<le> duty_cycle s' \<and> duty_cycle s' \<le> 1"
    by auto
  with s'(1) have b: "\<exists>s'. loop_critical_task SERVER calc l s = Inr s' \<and>
       (mode s = POWERMODE \<longrightarrow>
          duties (hw s') = duties (hw s) @ [duty_cycle s'] \<and>
          0 \<le> duty_cycle s' \<and> duty_cycle s' \<le> 1)"
    by blast
  from assms(2,3) have c: "\<exists>s'. run_critical SERVER calc ls s = Inr s' \<and> duties_ok (hw s')"
  proof (induction ls arbitrary: s)
    case Nil
    then show ?case by simp
  next
    case (Cons l ls)
    from server_tick_duties [OF assms(1) Cons.prems, of l] obtain s1 where
      s1: "loop_critical_task SERVER calc l s = Inr s1" "wf s1" "duties_ok (hw s1)"
      by blast
    from Cons.IH [OF s1(2,3)] obtain s2 where
      s2: "run_critical SERVER calc ls s1 = Inr s2" "duties_ok (hw s2)" by blast
    have "run_critical SERVER calc (l # ls) s = Inr s2" by (simp add: s1 s2)
    with s2(2) show ?case by blast
  qed
  from a b c show ?thesis by blast
qed


text \<open>The theorem on the server at start-up with the mode set to power and a regulator
  that always returns its upper limit.\<close>

theorem server_duty_in_unit_interval_witness:
  "pr_saturates high_calc \<and> wf ((init_state ())\<lparr>mode := POWERMODE\<rparr>) \<and>
   duties_ok (hw ((init_state ())\<lparr>mode := POWERMODE\<rparr>)) \<and>
   (\<exists>s'. loop_critical_task SERVER high_calc (\<lambda>c. 0) ((init_state ())\<lparr>mode := POWERMODE\<rparr>) = Inr s' \<and>
       duties (hw s') = [duty_cycle s'] \<and> 0 \<le> duty_cycle s' \<and> duty_cycle s' \<le> 1) \<and>
   (\<exists>s'. run_critical SERVER high_calc [\<lambda>c. 0, \<lambda>c. 0, \<lambda>c. 0] ((init_state ())\<lparr>mode := POWERMODE\<rparr>) = Inr s' \<and>
       duties_ok (hw s'))"
proof -
  have p: "pr_saturates high_calc"
    by (simp add: pr_saturates_def high_calc_def Udc_def)
  have w: "wf ((init_state ())\<lparr>mode := POWERMODE\<rparr>)"
    by (simp add: wf_def init_state_def RECORD_SIZE_def)
  have h: "hw ((init_state ())\<lparr>mode := POWERMODE\<rparr>) = []"
    "mode ((init_state ())\<lparr>mode := POWERMODE\<rparr>) = POWERMODE"
    by (simp_all add: init_state_def)
  have d: "duties_ok (hw ((init_state ())\<lparr>mode := POWERMODE\<rparr>))"
    by (simp add: h duties_ok_def)
  from server_duty_in_unit_interval [OF p w d, of "\<lambda>c. 0" "[\<lambda>c. 0, \<lambda>c. 0, \<lambda>c. 0]"]
  show ?thesis using p w d by (simp add: h)
qed


section \<open>Duty cycle of the client\<close>

lemma high_calc_saturates: "pr_saturates high_calc"
  by (simp add: pr_saturates_def high_calc_def Udc_def)


text \<open>
  C10. The duty cycle of the client is not confined to the interval from 0 to 1. A
  client at start-up accepts a frame with any positive voltage reference \<open>v\<close> and a run
  code; with a regulator that returns its upper limit \<open>Udc\<close>, which is within its
  saturation limits, the next control period computes the duty cycle
  \<open>(v + Udc) / (2 * Udc) + 0.5\<close>, hands it to the PWM driver as it is, and it is greater
  than 1.
\<close>

theorem client_duty_leaves_unit_interval:
  assumes "0 < v"
  shows "pr_saturates high_calc \<and>
   (\<exists>s'. loop_critical_task CLIENT high_calc l
           (rs485_receive CLIENT (frame v i w 0x41) (init_state ())) = Inr s' \<and>
      Vgrid s' = v \<and> pr_value s' = Udc \<and>
      duty_cycle s' = (v + Udc) / (2 * Udc) + 0.5 \<and>
      duties (hw s') = [duty_cycle s'] \<and> 1 < duty_cycle s')"
  using assms
  apply (simp add: high_calc_saturates)
  apply (simp add: rs485_receive_def reception_function_def
        frame_def Let_def and2_neq1 loop_critical_task_def
        client_control_def high_calc_def)
  apply (simp add: init_state_def record_every_4th_wf RECORD_SIZE_def Udc_def)
  apply (simp add: field_simps)
  done


text \<open>The theorem for the voltage reference 10: the duty cycle is 9/8.\<close>

theorem client_duty_leaves_unit_interval_witness:
  "(0::real) < 10 \<and> pr_saturates high_calc \<and>
   (\<exists>s'. loop_critical_task CLIENT high_calc (\<lambda>c. 0)
           (rs485_receive CLIENT (frame 10 0 (2 * pi * 50) 0x41) (init_state ())) = Inr s' \<and>
      duty_cycle s' = 9 / 8 \<and> duties (hw s') = [9 / 8])"
proof -
  have "(0::real) < 10" by simp
  from client_duty_leaves_unit_interval [OF this, of "\<lambda>c. 0" 0 "2 * pi * 50"]
  show ?thesis by (auto simp add: Udc_def)
qed


end
